theory Spec2Isabelle
  imports Main "HOL-Library.Word" "HOL-Library.Multiset"
begin

section \<open>The ledger of the-blockchain-bar: database/state.go\<close>

text \<open>
  A shallow embedding of \<^verbatim>\<open>database/state.go\<close>. Go's \<^verbatim>\<open>uint\<close> is taken at its
  64-bit width (amd64), so every balance, nonce, gas and fee computation wraps modulo
  \<open>2 ^ 64\<close> as the Go arithmetic does. A function that takes \<^verbatim>\<open>s *State\<close> becomes a
  function from the state to its result and the state it leaves behind; a Go
  \<^verbatim>\<open>error\<close> result is an \<open>error option\<close> (\<open>None\<close> is \<^verbatim>\<open>nil\<close>), a
  \<^verbatim>\<open>(Hash, error)\<close> result an \<open>error + Hash\<close>.
\<close>

subsection \<open>Data\<close>

type_synonym uint = "64 word"
type_synonym uint64 = "64 word"
type_synonym Address = "160 word"
type_synonym Hash = "256 word"

text \<open>
  Modelled from the spec: the declarations of \<^verbatim>\<open>SignedTx\<close>, \<^verbatim>\<open>BlockHeader\<close>, \<^verbatim>\<open>Block\<close> and
  \<^verbatim>\<open>BlockFS\<close> are in files of the repository other than state.go. The records hold the
  fields state.go reads and the ones section 3 of the specification lists. The header's
  proof-of-work value and timestamp are named \<open>PowNonce\<close> and \<open>BlockTime\<close>, and the two
  fields of a log record \<open>Key\<close> and \<open>Val\<close>, because a transaction already has fields
  \<open>Nonce\<close>, \<open>Time\<close> and \<open>Value\<close>.
\<close>

record SignedTx =
  From :: Address
  To :: Address
  Gas :: uint
  GasPrice :: uint
  Value :: uint
  Nonce :: uint
  Time :: uint64
  Sig :: "8 word list"

record BlockHeader =
  Parent :: Hash
  Number :: uint64
  PowNonce :: "32 word"
  BlockTime :: uint64
  Miner :: Address

record Block =
  Header :: BlockHeader
  TXs :: "SignedTx list"

record BlockFS =
  Key :: Hash
  Val :: Block

text \<open>Genesis (genesis.go): the fields \<^verbatim>\<open>Balances\<close> and \<^verbatim>\<open>ForkTIP1\<close> of the loaded file.\<close>

record Genesis =
  GenBalances :: "Address \<rightharpoonup> uint"
  GenSymbol :: string
  GenForkTIP1 :: uint64

text \<open>
  The State struct. The field \<^verbatim>\<open>dbFile\<close> is a handle to the block log; the log's
  contents live on disk, outside the struct, and the functions that touch the log take and
  return them next to the state.
\<close>

record State =
  Balances :: "Address \<rightharpoonup> uint"
  Account2Nonce :: "Address \<rightharpoonup> uint"
  latestBlock :: Block
  latestBlockHash :: Hash
  hasGenesisBlock :: bool
  miningDifficulty :: uint
  forkTIP1 :: uint64

text \<open>
  Every error value state.go can return. The first group is built by \<^verbatim>\<open>fmt.Errorf\<close> in
  state.go itself; the second group passes on the error of a collaborator, with its message.
\<close>

datatype error =
    ErrForged Address
  | ErrNonce Address uint uint
  | ErrGas uint
  | ErrGasPrice uint
  | ErrGasBeforeFork
  | ErrBalance Address uint uint
  | ErrBlockNumber uint64 uint64
  | ErrParent Hash Hash
  | ErrInvalidHash Hash
  | ErrAuthentic string
  | ErrHash string
  | ErrMarshal string
  | ErrUnmarshal string
  | ErrWrite string
  | ErrScan string
  | ErrInit string

text \<open>
  What state.go calls and does not define: \<^verbatim>\<open>tx.IsAuthentic()\<close>, \<^verbatim>\<open>b.Hash()\<close>,
  \<^verbatim>\<open>IsBlockHashValid\<close>, the constant \<^verbatim>\<open>BlockReward\<close>, and from Go's library
  \<^verbatim>\<open>sort.Slice\<close>, \<^verbatim>\<open>json.Marshal\<close>, \<^verbatim>\<open>json.Unmarshal\<close> and \<^verbatim>\<open>(*os.File).Write\<close>.
  They are parameters of the model. \<open>FileWrite env old data\<close> is one call of \<^verbatim>\<open>Write\<close>
  on a log that holds \<open>old\<close>: it yields Go's two results, the number of bytes written and
  the error (Go: Write returns a non-nil error when n != len(b)); the log is opened with
  \<^verbatim>\<open>O_APPEND\<close>, so it then holds \<open>old\<close> followed by that many bytes of \<open>data\<close>.
  AddBlock reads the error and drops the count.
\<close>

record Env =
  IsAuthentic :: "SignedTx \<Rightarrow> string + bool"
  BlockHash :: "Block \<Rightarrow> string + Hash"
  IsBlockHashValid :: "Hash \<Rightarrow> uint \<Rightarrow> bool"
  BlockReward :: uint
  SortSlice :: "(SignedTx \<Rightarrow> SignedTx \<Rightarrow> bool) \<Rightarrow> SignedTx list \<Rightarrow> SignedTx list"
  JsonMarshal :: "BlockFS \<Rightarrow> string + string"
  JsonUnmarshal :: "string \<Rightarrow> string + BlockFS"
  FileWrite :: "string \<Rightarrow> string \<Rightarrow> nat \<times> string option"

subsection \<open>Constants and the fee model\<close>

definition TxGas :: uint where
  "TxGas = 22"

definition TxGasPriceDefault :: uint where
  "TxGasPriceDefault = 2"

definition TxFee :: uint where
  "TxFee = 22"

text \<open>
  Modelled from the spec: \<^verbatim>\<open>Tx.Cost\<close> is not in state.go. Section 4.3: total cost =
  value + (fork active ? gas * gas_price : flat_fee).
\<close>

definition Cost :: "SignedTx \<Rightarrow> bool \<Rightarrow> uint" where
  "Cost tx isTip1Fork =
     (if isTip1Fork then Value tx + Gas tx * GasPrice tx else Value tx + TxFee)"

text \<open>
  Modelled from the spec: \<^verbatim>\<open>Block.GasReward\<close> is not in state.go. Section 4.5: the sum of
  gas * gas_price over all transactions in the block.
\<close>

definition GasReward :: "Block \<Rightarrow> uint" where
  "GasReward b = sum_list (map (\<lambda>tx. Gas tx * GasPrice tx) (TXs b))"

subsection \<open>Queries\<close>

text \<open>A Go map read \<^verbatim>\<open>m[k]\<close>: the zero value when the key is absent.\<close>

definition map_index :: "(Address \<rightharpoonup> uint) \<Rightarrow> Address \<Rightarrow> uint" where
  "map_index m k = (case m k of None \<Rightarrow> 0 | Some v \<Rightarrow> v)"

definition LatestBlock :: "State \<Rightarrow> Block" where
  "LatestBlock s = latestBlock s"

definition NextBlockNumber :: "State \<Rightarrow> uint64" where
  "NextBlockNumber s =
     (if \<not> hasGenesisBlock s then 0 else Number (Header (LatestBlock s)) + 1)"

definition GetNextAccountNonce :: "State \<Rightarrow> Address \<Rightarrow> uint" where
  "GetNextAccountNonce s account = map_index (Account2Nonce s) account + 1"

definition IsTIP1Fork :: "State \<Rightarrow> bool" where
  "IsTIP1Fork s = (NextBlockNumber s \<ge> forkTIP1 s)"

text \<open>
  Copy builds fresh maps and fills them entry by entry; as values the copies are the maps
  they were filled from.
\<close>

definition Copy :: "State \<Rightarrow> State" where
  "Copy s =
     \<lparr> Balances = Balances s,
       Account2Nonce = Account2Nonce s,
       latestBlock = latestBlock s,
       latestBlockHash = latestBlockHash s,
       hasGenesisBlock = hasGenesisBlock s,
       miningDifficulty = miningDifficulty s,
       forkTIP1 = forkTIP1 s \<rparr>"

subsection \<open>Transactions\<close>

definition ValidateTx :: "Env \<Rightarrow> SignedTx \<Rightarrow> State \<Rightarrow> error option \<times> State" where
  "ValidateTx env tx s =
     (case IsAuthentic env tx of
        Inl err \<Rightarrow> (Some (ErrAuthentic err), s)
      | Inr ok \<Rightarrow>
          if \<not> ok then (Some (ErrForged (From tx)), s)
          else
            let expectedNonce = GetNextAccountNonce s (From tx) in
            if Nonce tx \<noteq> expectedNonce
            then (Some (ErrNonce (From tx) expectedNonce (Nonce tx)), s)
            else
              case (if IsTIP1Fork s
                    then (if Gas tx \<noteq> TxGas then Some (ErrGas (Gas tx))
                          else if GasPrice tx < TxGasPriceDefault
                          then Some (ErrGasPrice (GasPrice tx))
                          else None)
                    else (if Gas tx \<noteq> 0 \<or> GasPrice tx \<noteq> 0 then Some ErrGasBeforeFork
                          else None)) of
                Some err \<Rightarrow> (Some err, s)
              | None \<Rightarrow>
                  if Cost tx (IsTIP1Fork s) > map_index (Balances s) (From tx)
                  then (Some (ErrBalance (From tx) (map_index (Balances s) (From tx))
                                (Cost tx (IsTIP1Fork s))), s)
                  else (None, s))"

text \<open>The statements \<^verbatim>\<open>s.Balances[k] -= v\<close> and \<^verbatim>\<open>s.Balances[k] += v\<close>.\<close>

definition Balances_sub :: "State \<Rightarrow> Address \<Rightarrow> uint \<Rightarrow> State" where
  "Balances_sub s k v = s\<lparr>Balances := (Balances s)(k \<mapsto> map_index (Balances s) k - v)\<rparr>"

definition Balances_add :: "State \<Rightarrow> Address \<Rightarrow> uint \<Rightarrow> State" where
  "Balances_add s k v = s\<lparr>Balances := (Balances s)(k \<mapsto> map_index (Balances s) k + v)\<rparr>"

definition ApplyTx :: "Env \<Rightarrow> SignedTx \<Rightarrow> State \<Rightarrow> error option \<times> State" where
  "ApplyTx env tx s =
     (case ValidateTx env tx s of
        (Some err, s0) \<Rightarrow> (Some err, s0)
      | (None, s0) \<Rightarrow>
          let s1 = Balances_sub s0 (From tx) (Cost tx (IsTIP1Fork s0));
              s2 = Balances_add s1 (To tx) (Value tx);
              s3 = s2\<lparr>Account2Nonce := (Account2Nonce s2)(From tx \<mapsto> Nonce tx)\<rparr>
          in (None, s3))"

text \<open>The loop of applyTXs over the slice it has just sorted.\<close>

fun applyTXs_loop :: "Env \<Rightarrow> SignedTx list \<Rightarrow> State \<Rightarrow> error option \<times> State" where
  "applyTXs_loop env [] s = (None, s)"
| "applyTXs_loop env (tx # txs) s =
     (case ApplyTx env tx s of
        (Some err, s1) \<Rightarrow> (Some err, s1)
      | (None, s1) \<Rightarrow> applyTXs_loop env txs s1)"

text \<open>The closure handed to \<^verbatim>\<open>sort.Slice\<close>: \<^verbatim>\<open>txs[i].Time < txs[j].Time\<close>.\<close>

definition time_less :: "SignedTx \<Rightarrow> SignedTx \<Rightarrow> bool" where
  "time_less a b = (Time a < Time b)"

text \<open>
  applyTXs sorts the slice it is given in place, so its caller sees the new order in
  \<^verbatim>\<open>b.TXs\<close> afterwards: the sorted slice is the third result.
\<close>

definition applyTXs :: "Env \<Rightarrow> SignedTx list \<Rightarrow> State \<Rightarrow> error option \<times> State \<times> SignedTx list" where
  "applyTXs env txs s =
     (let txs' = SortSlice env time_less txs in
      case applyTXs_loop env txs' s of (err, s1) \<Rightarrow> (err, s1, txs'))"

subsection \<open>Blocks\<close>

definition applyBlock :: "Env \<Rightarrow> Block \<Rightarrow> State \<Rightarrow> error option \<times> State \<times> Block" where
  "applyBlock env b s =
     (let nextExpectedBlockNumber = Number (Header (latestBlock s)) + 1 in
      if hasGenesisBlock s \<and> Number (Header b) \<noteq> nextExpectedBlockNumber
      then (Some (ErrBlockNumber nextExpectedBlockNumber (Number (Header b))), s, b)
      else if hasGenesisBlock s \<and> Number (Header (latestBlock s)) > 0
                \<and> Parent (Header b) \<noteq> latestBlockHash s
      then (Some (ErrParent (latestBlockHash s) (Parent (Header b))), s, b)
      else
        case BlockHash env b of
          Inl err \<Rightarrow> (Some (ErrHash err), s, b)
        | Inr hash \<Rightarrow>
            if \<not> IsBlockHashValid env hash (miningDifficulty s)
            then (Some (ErrInvalidHash hash), s, b)
            else
              case applyTXs env (TXs b) s of
                (Some err, s1, txs') \<Rightarrow> (Some err, s1, b\<lparr>TXs := txs'\<rparr>)
              | (None, s1, txs') \<Rightarrow>
                  let b1 = b\<lparr>TXs := txs'\<rparr>;
                      s2 = Balances_add s1 (Miner (Header b1)) (BlockReward env);
                      s3 = (if IsTIP1Fork s2
                            then Balances_add s2 (Miner (Header b1)) (GasReward b1)
                            else Balances_add s2 (Miner (Header b1))
                                   (of_nat (length (TXs b1)) * TxFee))
                  in (None, s3, b1))"

text \<open>
  AddBlock on the live state \<open>s\<close> and the log contents \<open>dbFile\<close>. The block it hashes,
  serialises and stores is its own \<^verbatim>\<open>b\<close>, whose transaction slice applyBlock has sorted.
\<close>

definition AddBlock :: "Env \<Rightarrow> Block \<Rightarrow> State \<Rightarrow> string \<Rightarrow> (error + Hash) \<times> State \<times> string" where
  "AddBlock env b s dbFile =
     (let pendingState = Copy s in
      case applyBlock env b pendingState of
        (Some err, pendingState1, b1) \<Rightarrow> (Inl err, s, dbFile)
      | (None, pendingState1, b1) \<Rightarrow>
          case BlockHash env b1 of
            Inl err \<Rightarrow> (Inl (ErrHash err), s, dbFile)
          | Inr blockHash \<Rightarrow>
              let blockFs = \<lparr> Key = blockHash, Val = b1 \<rparr> in
              case JsonMarshal env blockFs of
                Inl err \<Rightarrow> (Inl (ErrMarshal err), s, dbFile)
              | Inr blockFsJson \<Rightarrow>
                  let data = blockFsJson @ [CHR 0x0A] in
                  case FileWrite env dbFile data of
                    (n, Some err) \<Rightarrow> (Inl (ErrWrite err), s, dbFile @ take n data)
                  | (n, None) \<Rightarrow>
                      (Inr blockHash,
                       s\<lparr> Balances := Balances pendingState1,
                          Account2Nonce := Account2Nonce pendingState1,
                          latestBlockHash := blockHash,
                          latestBlock := b1,
                          hasGenesisBlock := True,
                          miningDifficulty := miningDifficulty pendingState1 \<rparr>,
                       dbFile @ take n data))"

subsection \<open>Replaying the log at startup\<close>

text \<open>
  NewStateFromDisk reads the log through \<^verbatim>\<open>bufio.NewScanner(f)\<close>: Go's line scanner
  with its default buffer, which holds at most \<^verbatim>\<open>bufio.MaxScanTokenSize\<close> bytes. \<open>Scanner\<close>
  gives, for the bytes the file holds and for how reading it ends (\<open>None\<close> for end of
  file, \<open>Some err\<close> for a read that fails after those bytes, returning no bytes with its
  error as a read of an \<^verbatim>\<open>*os.File\<close> does), what each call of \<^verbatim>\<open>scanner.Scan()\<close> that
  returns true leaves in \<^verbatim>\<open>scanner.Err()\<close> and \<^verbatim>\<open>scanner.Bytes()\<close>:
  \<^item> a line and its newline that fit the buffer come out as a token, without the newline
    and without one carriage return before it, and with no error;
  \<^item> a line of \<open>MaxScanTokenSize\<close> bytes or more fills the buffer before its newline is
    seen: \<^verbatim>\<open>Scan\<close> returns false there (the scanner's error is then \<^verbatim>\<open>ErrTooLong\<close>) and
    yields nothing further;
  \<^item> what follows the last newline comes out as a last token if it is not empty, and
    then \<^verbatim>\<open>scanner.Err()\<close> is the error of the failed read, if the read failed.
\<close>

definition MaxScanTokenSize :: nat where
  "MaxScanTokenSize = 64 * 1024"

definition dropCR :: "string \<Rightarrow> string" where
  "dropCR data = (if data \<noteq> [] \<and> last data = CHR 0x0D then butlast data else data)"

function Scanner :: "string \<Rightarrow> string option \<Rightarrow> (string option \<times> string) list" where
  "Scanner input readErr =
     (let line = takeWhile (\<lambda>c. c \<noteq> CHR 0x0A) input in
      if MaxScanTokenSize \<le> length line then []
      else if length line < length input
      then (None, dropCR line) # Scanner (drop (length line + 1) input) readErr
      else if line = [] then []
      else [(readErr, dropCR line)])"
  by pat_completeness auto
termination
  by (relation "measure (\<lambda>(input, readErr). length input)") auto

text \<open>
  The loop of NewStateFromDisk over what the scanner yields. The end of the list is
  \<^verbatim>\<open>scanner.Scan()\<close> returning false, after which the code returns the state and never
  looks at \<^verbatim>\<open>scanner.Err()\<close> again. Inside the loop an error of the scanner, of
  \<^verbatim>\<open>json.Unmarshal\<close> or of applyBlock is \<^verbatim>\<open>return nil, err\<close>, and an empty token is the
  \<^verbatim>\<open>break\<close>.
\<close>

fun replay :: "Env \<Rightarrow> (string option \<times> string) list \<Rightarrow> State \<Rightarrow> error + State" where
  "replay env [] state = Inr state"
| "replay env ((scanErr, blockFsJson) # rest) state =
     (case scanErr of
        Some err \<Rightarrow> Inl (ErrScan err)
      | None \<Rightarrow>
          if length blockFsJson = 0 then Inr state
          else
            case JsonUnmarshal env blockFsJson of
              Inl err \<Rightarrow> Inl (ErrUnmarshal err)
            | Inr blockFs \<Rightarrow>
                case applyBlock env (Val blockFs) state of
                  (Some err, state1, b1) \<Rightarrow> Inl err
                | (None, state1, b1) \<Rightarrow>
                    replay env rest
                      (state1\<lparr> latestBlock := b1,
                               latestBlockHash := Key blockFs,
                               hasGenesisBlock := True \<rparr>))"

text \<open>
  NewStateFromDisk. \<open>gen\<close> is what preparing the data directory and loading the genesis
  file gave, \<open>opened\<close> what opening the log gave: an error message, or the bytes in the
  file together with how reading them ends.
\<close>

definition NewStateFromDisk ::
  "Env \<Rightarrow> string + Genesis \<Rightarrow> string + string \<times> string option \<Rightarrow> uint \<Rightarrow> error + State" where
  "NewStateFromDisk env gen opened difficulty =
     (case gen of
        Inl err \<Rightarrow> Inl (ErrInit err)
      | Inr g \<Rightarrow>
          case opened of
            Inl err \<Rightarrow> Inl (ErrInit err)
          | Inr (contents, readErr) \<Rightarrow>
              replay env (Scanner contents readErr)
                \<lparr> Balances = GenBalances g,
                  Account2Nonce = Map.empty,
                  latestBlock = \<lparr> Header = \<lparr> Parent = 0, Number = 0, PowNonce = 0,
                                              BlockTime = 0, Miner = 0 \<rparr>,
                                  TXs = [] \<rparr>,
                  latestBlockHash = 0,
                  hasGenesisBlock = False,
                  miningDifficulty = difficulty,
                  forkTIP1 = GenForkTIP1 g \<rparr>)"


definition short_record :: "string \<Rightarrow> bool" where
  "short_record r =
     (r \<noteq> [] \<and> CHR 0x0A \<notin> set r \<and> length r < MaxScanTokenSize \<and> last r \<noteq> CHR 0x0D)"

subsection \<open>sort.Slice\<close>

text \<open>
  Go documents \<^verbatim>\<open>sort.Slice\<close> as sorting the slice by the given \<^verbatim>\<open>less\<close>, and adds:
  the sort is not guaranteed to be stable, equal elements may be reversed from their
  original order (the stable one is \<^verbatim>\<open>sort.SliceStable\<close>). The documented contract of
  \<open>SortSlice env\<close> is that its result is a rearrangement of its argument in which no
  element is \<open>less\<close> than an earlier one.
\<close>

definition sort_contract :: "Env \<Rightarrow> bool" where
  "sort_contract env =
     (\<forall>txs. mset (SortSlice env time_less txs) = mset txs
          \<and> sorted_wrt (\<lambda>a b. \<not> time_less b a) (SortSlice env time_less txs))"

text \<open>
  A sort that meets the contract: \<open>sort_by\<close> is an insertion sort that keeps equal
  elements in the order it found them.
\<close>

fun insort_by :: "('a \<Rightarrow> 'a \<Rightarrow> bool) \<Rightarrow> 'a \<Rightarrow> 'a list \<Rightarrow> 'a list" where
  "insort_by lt x [] = [x]"
| "insort_by lt x (y # ys) = (if lt y x then y # insort_by lt x ys else x # y # ys)"

definition sort_by :: "('a \<Rightarrow> 'a \<Rightarrow> bool) \<Rightarrow> 'a list \<Rightarrow> 'a list" where
  "sort_by lt xs = foldr (insort_by lt) xs []"

subsection \<open>sort.Slice as Go's library implements it\<close>

text \<open>
  From Go 1.19 on \<^verbatim>\<open>sort.Slice\<close> is a pattern-defeating quicksort (package \<^verbatim>\<open>sort\<close>, file
  \<^verbatim>\<open>zsortfunc.go\<close>). The functions below follow that file one by one and keep its names.
\<close>

text \<open>
  The slice is a list indexed by Go's \<^verbatim>\<open>int\<close>. \<^verbatim>\<open>data.Less(i, j)\<close> calls the closure on
  the elements now at \<open>i\<close> and \<open>j\<close>, \<^verbatim>\<open>data.Swap(i, j)\<close> exchanges them.
\<close>

definition Less :: "('a \<Rightarrow> 'a \<Rightarrow> bool) \<Rightarrow> 'a list \<Rightarrow> int \<Rightarrow> int \<Rightarrow> bool" where
  "Less lt data i j = lt (data ! nat i) (data ! nat j)"

definition Swap :: "'a list \<Rightarrow> int \<Rightarrow> int \<Rightarrow> 'a list" where
  "Swap data i j = data[nat i := data ! nat j, nat j := data ! nat i]"

text \<open>
  \<^verbatim>\<open>insertionSort_func\<close>: for \<open>i\<close> from \<open>a + 1\<close> below \<open>b\<close>, the element at \<open>i\<close> moves down
  while it is less than the one before it (\<^verbatim>\<open>for j := i; j > a && data.Less(j, j-1); j--\<close>).
\<close>

function insertionSort_inner :: "('a \<Rightarrow> 'a \<Rightarrow> bool) \<Rightarrow> int \<Rightarrow> int \<Rightarrow> 'a list \<Rightarrow> 'a list" where
  "insertionSort_inner lt a j data =
     (if j > a \<and> Less lt data j (j - 1)
      then insertionSort_inner lt a (j - 1) (Swap data j (j - 1))
      else data)"
  by pat_completeness auto
termination
  by (relation "measure (\<lambda>(lt, a, j, data). nat (j - a))") auto

declare insertionSort_inner.simps [simp del]

function insertionSort_outer :: "('a \<Rightarrow> 'a \<Rightarrow> bool) \<Rightarrow> int \<Rightarrow> int \<Rightarrow> int \<Rightarrow> 'a list \<Rightarrow> 'a list" where
  "insertionSort_outer lt a b i data =
     (if i < b then insertionSort_outer lt a b (i + 1) (insertionSort_inner lt a i data)
      else data)"
  by pat_completeness auto
termination
  by (relation "measure (\<lambda>(lt, a, b, i, data). nat (b - i))") auto

declare insertionSort_outer.simps [simp del]

definition insertionSort_func :: "('a \<Rightarrow> 'a \<Rightarrow> bool) \<Rightarrow> 'a list \<Rightarrow> int \<Rightarrow> int \<Rightarrow> 'a list" where
  "insertionSort_func lt data a b = insertionSort_outer lt a b (a + 1) data"

text \<open>
  \<^verbatim>\<open>siftDown_func\<close> and \<^verbatim>\<open>heapSort_func\<close>: the heap is built from \<open>(hi - 1) / 2\<close> down to 0,
  then the greatest element is popped to the end, for \<open>i\<close> from \<open>hi - 1\<close> down to 0.
\<close>

function siftDown_func :: "('a \<Rightarrow> 'a \<Rightarrow> bool) \<Rightarrow> 'a list \<Rightarrow> nat \<Rightarrow> nat \<Rightarrow> int \<Rightarrow> 'a list" where
  "siftDown_func lt data root hi first =
     (let child = 2 * root + 1 in
      if child \<ge> hi then data
      else
        let child = (if child + 1 < hi
                        \<and> Less lt data (first + int child) (first + int child + 1)
                     then child + 1 else child) in
        if \<not> Less lt data (first + int root) (first + int child) then data
        else siftDown_func lt (Swap data (first + int root) (first + int child)) child hi first)"
  by pat_completeness auto
termination
proof (relation "measure (\<lambda>(lt, data, root, hi, first). hi - root)")
  show "wf (measure (\<lambda>(lt, data, root, hi, first). hi - root))" by simp
next
  fix lt :: "'a \<Rightarrow> 'a \<Rightarrow> bool" and data :: "'a list" and root hi :: nat and first :: int
    and x xa :: nat
  assume "x = 2 * root + 1" "\<not> hi \<le> x"
     "xa = (if x + 1 < hi \<and> Less lt data (first + int x) (first + int x + 1) then x + 1 else x)"
  then show "((lt, Swap data (first + int root) (first + int xa), xa, hi, first),
              (lt, data, root, hi, first))
             \<in> measure (\<lambda>(lt, data, root, hi, first). hi - root)"
    by (auto split: if_splits)
qed

declare siftDown_func.simps [simp del]

fun heapSort_build :: "('a \<Rightarrow> 'a \<Rightarrow> bool) \<Rightarrow> nat \<Rightarrow> int \<Rightarrow> nat \<Rightarrow> 'a list \<Rightarrow> 'a list" where
  "heapSort_build lt hi first 0 data = data"
| "heapSort_build lt hi first (Suc i) data =
     heapSort_build lt hi first i (siftDown_func lt data i hi first)"

fun heapSort_pop :: "('a \<Rightarrow> 'a \<Rightarrow> bool) \<Rightarrow> int \<Rightarrow> nat \<Rightarrow> 'a list \<Rightarrow> 'a list" where
  "heapSort_pop lt first 0 data = data"
| "heapSort_pop lt first (Suc i) data =
     heapSort_pop lt first i (siftDown_func lt (Swap data first (first + int i)) 0 i first)"

definition heapSort_func :: "('a \<Rightarrow> 'a \<Rightarrow> bool) \<Rightarrow> 'a list \<Rightarrow> int \<Rightarrow> int \<Rightarrow> 'a list" where
  "heapSort_func lt data a b =
     (let first = a; hi = nat (b - a) in
      heapSort_pop lt first hi (heapSort_build lt hi first (Suc ((hi - 1) div 2)) data))"

text \<open>
  \<^verbatim>\<open>breakPatterns_func\<close> swaps three elements around the middle with three chosen by a
  xorshift generator seeded with the length. The step of the generator
  (\<^verbatim>\<open>(*xorshift).Next\<close>) is the parameter \<open>nxt\<close>; \<^verbatim>\<open>bits.Len\<close> is the number of bits of its
  argument, and \<^verbatim>\<open>uint(r) & (modulus - 1)\<close> with \<open>modulus\<close> a power of two is \<open>r mod modulus\<close>.
\<close>

fun bits_Len :: "nat \<Rightarrow> nat" where
  "bits_Len n = (if n = 0 then 0 else Suc (bits_Len (n div 2)))"

definition nextPowerOfTwo :: "int \<Rightarrow> nat" where
  "nextPowerOfTwo len = 2 ^ bits_Len (nat len)"

definition breakPatterns_func :: "(64 word \<Rightarrow> 64 word) \<Rightarrow> 'a list \<Rightarrow> int \<Rightarrow> int \<Rightarrow> 'a list" where
  "breakPatterns_func nxt data a b =
     (let len = b - a in
      if len \<ge> 8 then
        let modulus = nextPowerOfTwo len;
            idx = a + (len div 4) * 2 - 1
        in snd (foldl (\<lambda>(random, data) i.
                  let random = nxt random;
                      other = int (unat random mod modulus);
                      other = (if other \<ge> len then other - len else other)
                  in (random, Swap data (idx - 1 + i) (a + other)))
                (word_of_int len, data) [0, 1, 2])
      else data)"

text \<open>
  \<^verbatim>\<open>choosePivot_func\<close>: the median of three elements (of three medians of adjacent
  elements from length 50 on), with the number of exchanges it took as a hint on the order
  the slice is in.
\<close>

datatype sortedHint = unknownHint | increasingHint | decreasingHint

definition order2_func :: "('a \<Rightarrow> 'a \<Rightarrow> bool) \<Rightarrow> 'a list \<Rightarrow> int \<Rightarrow> int \<Rightarrow> nat \<Rightarrow> int \<times> int \<times> nat" where
  "order2_func lt data a b swaps =
     (if Less lt data b a then (b, a, swaps + 1) else (a, b, swaps))"

definition median_func :: "('a \<Rightarrow> 'a \<Rightarrow> bool) \<Rightarrow> 'a list \<Rightarrow> int \<Rightarrow> int \<Rightarrow> int \<Rightarrow> nat \<Rightarrow> int \<times> nat" where
  "median_func lt data a b c swaps =
     (case order2_func lt data a b swaps of (a, b, swaps) \<Rightarrow>
      case order2_func lt data b c swaps of (b, c, swaps) \<Rightarrow>
      case order2_func lt data a b swaps of (a, b, swaps) \<Rightarrow>
        (b, swaps))"

definition medianAdjacent_func :: "('a \<Rightarrow> 'a \<Rightarrow> bool) \<Rightarrow> 'a list \<Rightarrow> int \<Rightarrow> nat \<Rightarrow> int \<times> nat" where
  "medianAdjacent_func lt data a swaps = median_func lt data (a - 1) a (a + 1) swaps"

definition choosePivot_func :: "('a \<Rightarrow> 'a \<Rightarrow> bool) \<Rightarrow> 'a list \<Rightarrow> int \<Rightarrow> int \<Rightarrow> int \<times> sortedHint" where
  "choosePivot_func lt data a b =
     (let l = b - a;
          i = a + l div 4 * 1;
          j = a + l div 4 * 2;
          k = a + l div 4 * 3
      in case (if l \<ge> 8
               then (case (if l \<ge> 50
                           then (case medianAdjacent_func lt data i 0 of (i, swaps) \<Rightarrow>
                                 case medianAdjacent_func lt data j swaps of (j, swaps) \<Rightarrow>
                                 case medianAdjacent_func lt data k swaps of (k, swaps) \<Rightarrow>
                                   (i, j, k, swaps))
                           else (i, j, k, 0)) of
                       (i, j, k, swaps) \<Rightarrow> median_func lt data i j k swaps)
               else (j, 0)) of
           (j, swaps) \<Rightarrow>
             (j, if swaps = 0 then increasingHint
                 else if swaps = 4 * 3 then decreasingHint
                 else unknownHint))"

text \<open>
\<^verbatim>\<open>reverseRange_func\<close> reverses the elements of \<open>[a, b)\<close>.
\<close>

function reverseRange_loop :: "int \<Rightarrow> int \<Rightarrow> 'a list \<Rightarrow> 'a list" where
  "reverseRange_loop i j data =
     (if i < j then reverseRange_loop (i + 1) (j - 1) (Swap data i j) else data)"
  by pat_completeness auto
termination
  by (relation "measure (\<lambda>(i, j, data). nat (j - i))") auto

declare reverseRange_loop.simps [simp del]

definition reverseRange_func :: "'a list \<Rightarrow> int \<Rightarrow> int \<Rightarrow> 'a list" where
  "reverseRange_func data a b = reverseRange_loop a (b - 1) data"

text \<open>
  \<^verbatim>\<open>partialInsertionSort_func\<close>: at most five times, skip the elements that are in order;
  at the end of the slice report it sorted; below length 50 give up; otherwise exchange the
  pair found out of order and shift the smaller one to the left and the greater one to the
  right. The shift to the left runs \<^verbatim>\<open>for j := i - 1; j >= 1; j--\<close>.
\<close>

function partialInsertionSort_skip :: "('a \<Rightarrow> 'a \<Rightarrow> bool) \<Rightarrow> 'a list \<Rightarrow> int \<Rightarrow> int \<Rightarrow> int" where
  "partialInsertionSort_skip lt data b i =
     (if i < b \<and> \<not> Less lt data i (i - 1) then partialInsertionSort_skip lt data b (i + 1)
      else i)"
  by pat_completeness auto
termination
  by (relation "measure (\<lambda>(lt, data, b, i). nat (b - i))") auto

declare partialInsertionSort_skip.simps [simp del]

function shift_left :: "('a \<Rightarrow> 'a \<Rightarrow> bool) \<Rightarrow> int \<Rightarrow> 'a list \<Rightarrow> 'a list" where
  "shift_left lt j data =
     (if j \<ge> 1
      then (if \<not> Less lt data j (j - 1) then data
            else shift_left lt (j - 1) (Swap data j (j - 1)))
      else data)"
  by pat_completeness auto
termination
  by (relation "measure (\<lambda>(lt, j, data). nat j)") auto

declare shift_left.simps [simp del]

function shift_right :: "('a \<Rightarrow> 'a \<Rightarrow> bool) \<Rightarrow> int \<Rightarrow> int \<Rightarrow> 'a list \<Rightarrow> 'a list" where
  "shift_right lt b j data =
     (if j < b
      then (if \<not> Less lt data j (j - 1) then data
            else shift_right lt b (j + 1) (Swap data j (j - 1)))
      else data)"
  by pat_completeness auto
termination
  by (relation "measure (\<lambda>(lt, b, j, data). nat (b - j))") auto

declare shift_right.simps [simp del]

fun partialInsertionSort_steps ::
  "('a \<Rightarrow> 'a \<Rightarrow> bool) \<Rightarrow> int \<Rightarrow> int \<Rightarrow> nat \<Rightarrow> int \<Rightarrow> 'a list \<Rightarrow> bool \<times> 'a list" where
  "partialInsertionSort_steps lt a b 0 i data = (False, data)"
| "partialInsertionSort_steps lt a b (Suc steps) i data =
     (let i = partialInsertionSort_skip lt data b i in
      if i = b then (True, data)
      else if b - a < 50 then (False, data)
      else
        let data = Swap data i (i - 1);
            data = (if i - a \<ge> 2 then shift_left lt (i - 1) data else data);
            data = (if b - i \<ge> 2 then shift_right lt b (i + 1) data else data)
        in partialInsertionSort_steps lt a b steps i data)"

definition partialInsertionSort_func ::
  "('a \<Rightarrow> 'a \<Rightarrow> bool) \<Rightarrow> 'a list \<Rightarrow> int \<Rightarrow> int \<Rightarrow> bool \<times> 'a list" where
  "partialInsertionSort_func lt data a b = partialInsertionSort_steps lt a b 5 (a + 1) data"

text \<open>
  The two inner loops of the partitioning functions: \<^verbatim>\<open>for i <= j && P(i) { i++ }\<close> and
  \<^verbatim>\<open>for i <= j && Q(j) { j-- }\<close>. The first never moves \<open>i\<close> down and the second never moves
  \<open>j\<close> up, so the loop around them ends.
\<close>

function scan_up :: "('a list \<Rightarrow> int \<Rightarrow> bool) \<Rightarrow> 'a list \<Rightarrow> int \<Rightarrow> int \<Rightarrow> int" where
  "scan_up P data j i = (if i \<le> j \<and> P data i then scan_up P data j (i + 1) else i)"
  by pat_completeness auto
termination
  by (relation "measure (\<lambda>(P, data, j, i). nat (j + 1 - i))") auto

declare scan_up.simps [simp del]

function scan_down :: "('a list \<Rightarrow> int \<Rightarrow> bool) \<Rightarrow> 'a list \<Rightarrow> int \<Rightarrow> int \<Rightarrow> int" where
  "scan_down P data i j = (if i \<le> j \<and> P data j then scan_down P data i (j - 1) else j)"
  by pat_completeness auto
termination
  by (relation "measure (\<lambda>(P, data, i, j). nat (j + 1 - i))") auto

declare scan_down.simps [simp del]

lemma scan_up_ge: "i \<le> scan_up P data j i"
proof (induction P data j i rule: scan_up.induct)
  case (1 P data j i)
  show ?case
  proof (cases "i \<le> j \<and> P data i")
    case True
    then have "i + 1 \<le> scan_up P data j (i + 1)" by (rule "1.IH")
    moreover have "scan_up P data j i = scan_up P data j (i + 1)"
      using True by (subst scan_up.simps) simp
    ultimately show ?thesis by simp
  next
    case False
    then have "scan_up P data j i = i"
      by (subst scan_up.simps) auto
    then show ?thesis by simp
  qed
qed

lemma scan_down_le: "scan_down P data i j \<le> j"
proof (induction P data i j rule: scan_down.induct)
  case (1 P data i j)
  show ?case
  proof (cases "i \<le> j \<and> P data j")
    case True
    then have "scan_down P data i (j - 1) \<le> j - 1" by (rule "1.IH")
    moreover have "scan_down P data i j = scan_down P data i (j - 1)"
      using True by (subst scan_down.simps) simp
    ultimately show ?thesis by simp
  next
    case False
    then have "scan_down P data i j = j"
      by (subst scan_down.simps) auto
    then show ?thesis by simp
  qed
qed

text \<open>
  The outer loop of \<^verbatim>\<open>partitionEqual_func\<close> and \<^verbatim>\<open>partition_func\<close>: scan up, scan down, stop
  when the two indices have crossed, else exchange the two elements and step.
\<close>

function partition_loop ::
  "('a list \<Rightarrow> int \<Rightarrow> bool) \<Rightarrow> ('a list \<Rightarrow> int \<Rightarrow> bool) \<Rightarrow> int \<Rightarrow> int \<Rightarrow> 'a list \<Rightarrow> int \<times> int \<times> 'a list" where
  "partition_loop P Q i j data =
     (let i = scan_up P data j i;
          j = scan_down Q data i j
      in if i > j then (i, j, data)
         else partition_loop P Q (i + 1) (j - 1) (Swap data i j))"
  by pat_completeness auto
termination
proof (relation "measure (\<lambda>(P, Q, i, j, data). nat (j + 1 - i))")
  show "wf (measure (\<lambda>(P, Q, i, j, data). nat (j + 1 - i)))" by simp
next
  fix P Q :: "'a list \<Rightarrow> int \<Rightarrow> bool" and i j x xa :: int and data :: "'a list"
  assume "x = scan_up P data j i" "xa = scan_down Q data x j" "\<not> xa < x"
  then show "((P, Q, x + 1, xa - 1, Swap data x xa), (P, Q, i, j, data))
             \<in> measure (\<lambda>(P, Q, i, j, data). nat (j + 1 - i))"
    using scan_up_ge [of i P data j] scan_down_le [of Q data x j] by simp
qed

declare partition_loop.simps [simp del]

text \<open>
  \<^verbatim>\<open>partitionEqual_func\<close> separates the elements equal to the pivot from the greater ones
  and returns the first index of the latter; \<^verbatim>\<open>partition_func\<close> moves the elements less than
  the pivot before it and returns the pivot's new index, and whether it exchanged nothing.
\<close>

definition partitionEqual_func ::
  "('a \<Rightarrow> 'a \<Rightarrow> bool) \<Rightarrow> 'a list \<Rightarrow> int \<Rightarrow> int \<Rightarrow> int \<Rightarrow> int \<times> 'a list" where
  "partitionEqual_func lt data a b pivot =
     (case partition_loop (\<lambda>d i. \<not> Less lt d a i) (\<lambda>d j. Less lt d a j) (a + 1) (b - 1)
             (Swap data a pivot) of
        (i, j, data) \<Rightarrow> (i, data))"

definition partition_func ::
  "('a \<Rightarrow> 'a \<Rightarrow> bool) \<Rightarrow> 'a list \<Rightarrow> int \<Rightarrow> int \<Rightarrow> int \<Rightarrow> int \<times> bool \<times> 'a list" where
  "partition_func lt data a b pivot =
     (let data = Swap data a pivot;
          i = scan_up (\<lambda>d i. Less lt d i a) data (b - 1) (a + 1);
          j = scan_down (\<lambda>d j. \<not> Less lt d j a) data i (b - 1)
      in if i > j then (j, True, Swap data j a)
         else
           case partition_loop (\<lambda>d i. Less lt d i a) (\<lambda>d j. \<not> Less lt d j a) (i + 1) (j - 1)
                  (Swap data i j) of
             (i, j, data) \<Rightarrow> (j, False, Swap data j a))"

text \<open>
  The index \<^verbatim>\<open>partition_func\<close> returns lies in \<open>[a, b)\<close>, and the one \<^verbatim>\<open>partitionEqual_func\<close>
  returns is above \<open>a\<close>: every recursive call and every turn of the loop of
  \<^verbatim>\<open>pdqsort_func\<close> works on a shorter range.
\<close>

lemma scan_down_ge: "min j (i - 1) \<le> scan_down P data i j"
proof (induction P data i j rule: scan_down.induct)
  case (1 P data i j)
  show ?case
  proof (cases "i \<le> j \<and> P data j")
    case True
    then have "min (j - 1) (i - 1) \<le> scan_down P data i (j - 1)" by (rule "1.IH")
    moreover have "scan_down P data i j = scan_down P data i (j - 1)"
      using True by (subst scan_down.simps) simp
    ultimately show ?thesis using True by simp
  next
    case False
    then have "scan_down P data i j = j"
      by (subst scan_down.simps) auto
    then show ?thesis by simp
  qed
qed

lemma partition_loop_bounds:
  "partition_loop P Q i j data = (i', j', data') \<Longrightarrow> i \<le> i' \<and> j' \<le> j \<and> min j (i - 1) \<le> j'"
proof (induction P Q i j data arbitrary: i' j' data' rule: partition_loop.induct)
  case (1 P Q i j data)
  let ?i = "scan_up P data j i"
  let ?j = "scan_down Q data ?i j"
  have i1: "i \<le> ?i" by (rule scan_up_ge)
  have j1: "?j \<le> j" by (rule scan_down_le)
  have j2: "min j (?i - 1) \<le> ?j" by (rule scan_down_ge)
  show ?case
  proof (cases "?i > ?j")
    case True
    then have "partition_loop P Q i j data = (?i, ?j, data)"
      by (subst partition_loop.simps) (simp add: Let_def)
    with "1.prems" have "i' = ?i \<and> j' = ?j" by auto
    then show ?thesis using i1 j1 j2 by auto
  next
    case False
    then have "partition_loop P Q i j data = partition_loop P Q (?i + 1) (?j - 1) (Swap data ?i ?j)"
      by (subst partition_loop.simps) (simp add: Let_def)
    with "1.prems" have "partition_loop P Q (?i + 1) (?j - 1) (Swap data ?i ?j) = (i', j', data')"
      by simp
    from "1.IH" [OF refl refl _ this] False
    have "?i + 1 \<le> i' \<and> j' \<le> ?j - 1 \<and> min (?j - 1) (?i + 1 - 1) \<le> j'" by simp
    then show ?thesis using i1 j1 j2 False by auto
  qed
qed

lemma partitionEqual_func_bound:
  "a + 1 \<le> fst (partitionEqual_func lt data a b pivot)"
proof -
  obtain i j d where r: "partition_loop (\<lambda>d i. \<not> Less lt d a i) (\<lambda>d j. Less lt d a j) (a + 1) (b - 1)
             (Swap data a pivot) = (i, j, d)"
    by (metis prod_cases3)
  from partition_loop_bounds [OF r] show ?thesis
    by (simp add: partitionEqual_func_def r)
qed

lemma partition_func_bounds:
  assumes "a < b"
  shows "a \<le> fst (partition_func lt data a b pivot) \<and> fst (partition_func lt data a b pivot) \<le> b - 1"
proof -
  let ?d = "Swap data a pivot"
  let ?i = "scan_up (\<lambda>d i. Less lt d i a) ?d (b - 1) (a + 1)"
  let ?j = "scan_down (\<lambda>d j. \<not> Less lt d j a) ?d ?i (b - 1)"
  have i1: "a + 1 \<le> ?i" by (rule scan_up_ge)
  have j1: "?j \<le> b - 1" by (rule scan_down_le)
  have j2: "min (b - 1) (?i - 1) \<le> ?j" by (rule scan_down_ge)
  show ?thesis
  proof (cases "?i > ?j")
    case True
    then have "fst (partition_func lt data a b pivot) = ?j"
      by (simp add: partition_func_def Let_def)
    then show ?thesis using i1 j1 j2 assms by auto
  next
    case False
    obtain i' j' d' where r: "partition_loop (\<lambda>d i. Less lt d i a) (\<lambda>d j. \<not> Less lt d j a)
         (?i + 1) (?j - 1) (Swap ?d ?i ?j) = (i', j', d')"
      by (metis prod_cases3)
    have "fst (partition_func lt data a b pivot) = j'"
      using False by (simp add: partition_func_def Let_def r)
    moreover from partition_loop_bounds [OF r]
    have "j' \<le> ?j - 1 \<and> min (?j - 1) (?i + 1 - 1) \<le> j'" by simp
    ultimately show ?thesis using i1 j1 j2 False by auto
  qed
qed

lemma partitionEqual_func_mid:
  "(mid, d) = partitionEqual_func lt data a b pivot \<Longrightarrow> a + 1 \<le> mid"
  using partitionEqual_func_bound [of a lt data b pivot] by (auto dest: arg_cong [where f = fst])

lemma partition_func_mid:
  "(mid, r) = partition_func lt data a b pivot \<Longrightarrow> a < b \<longrightarrow> a \<le> mid \<and> mid \<le> b - 1"
  using partition_func_bounds [of a b lt data pivot] by (auto dest: arg_cong [where f = fst])

text \<open>
  \<^verbatim>\<open>pdqsort_func\<close>. Its loop is the recursion on the rest of the range; \<open>wasBalanced\<close> and
  \<open>wasPartitioned\<close>, local variables of the Go function, start as true in a recursive call
  and are carried through the loop. A range of at most 12 elements is sorted by insertion.
\<close>

function pdqsort_func ::
  "(64 word \<Rightarrow> 64 word) \<Rightarrow> ('a \<Rightarrow> 'a \<Rightarrow> bool) \<Rightarrow> 'a list \<Rightarrow> int \<Rightarrow> int \<Rightarrow> int \<Rightarrow> bool \<Rightarrow> bool
     \<Rightarrow> 'a list" where
  "pdqsort_func nxt lt data a b limit wasBalanced wasPartitioned =
     (let len = b - a in
      if len \<le> 12 then insertionSort_func lt data a b
      else if limit = 0 then heapSort_func lt data a b
      else
        case (if \<not> wasBalanced then (breakPatterns_func nxt data a b, limit - 1)
              else (data, limit)) of
          (data, limit) \<Rightarrow>
        case choosePivot_func lt data a b of
          (pivot, hint) \<Rightarrow>
        case (if hint = decreasingHint
              then (reverseRange_func data a b, (b - 1) - (pivot - a), increasingHint)
              else (data, pivot, hint)) of
          (data, pivot, hint) \<Rightarrow>
        case (if wasBalanced \<and> wasPartitioned \<and> hint = increasingHint
              then partialInsertionSort_func lt data a b
              else (False, data)) of
          (True, data) \<Rightarrow> data
        | (False, data) \<Rightarrow>
            if a > 0 \<and> \<not> Less lt data (a - 1) pivot
            then (case partitionEqual_func lt data a b pivot of
                    (mid, data) \<Rightarrow>
                      pdqsort_func nxt lt data mid b limit wasBalanced wasPartitioned)
            else
              case partition_func lt data a b pivot of
                (mid, alreadyPartitioned, data) \<Rightarrow>
                  let leftLen = mid - a;
                      rightLen = b - mid;
                      balanceThreshold = len div 8
                  in if leftLen < rightLen
                     then pdqsort_func nxt lt (pdqsort_func nxt lt data a mid limit True True)
                            (mid + 1) b limit (leftLen \<ge> balanceThreshold) alreadyPartitioned
                     else pdqsort_func nxt lt (pdqsort_func nxt lt data (mid + 1) b limit True True)
                            a mid limit (rightLen \<ge> balanceThreshold) alreadyPartitioned)"
  by pat_completeness auto
termination
  apply (relation "measure (\<lambda>(nxt, lt, data, a, b, limit, wasBalanced, wasPartitioned). nat (b - a))")
      apply simp
     apply (auto dest!: partitionEqual_func_mid partition_func_mid)
  done

declare pdqsort_func.simps [simp del]

text \<open>
\<^verbatim>\<open>sort.Slice(x, less)\<close>: \<^verbatim>\<open>pdqsort_func(lessSwap{less, swap}, 0, length, bits.Len(uint(length)))\<close>.
\<close>

definition Slice :: "(64 word \<Rightarrow> 64 word) \<Rightarrow> ('a \<Rightarrow> 'a \<Rightarrow> bool) \<Rightarrow> 'a list \<Rightarrow> 'a list" where
  "Slice nxt lt x =
     (let n = int (length x);
          limit = int (bits_Len (length x))
      in pdqsort_func nxt lt x 0 n limit True True)"



subsection \<open>Concrete accounts, transactions and environments\<close>

definition alice :: Address where
  "alice = 1"

definition bob :: Address where
  "bob = 2"

definition carol :: Address where
  "carol = 3"

text \<open>
  A signed transfer with the gas fields given, and one with a forged (here: empty)
  signature.
\<close>

definition transfer :: "Address \<Rightarrow> Address \<Rightarrow> uint \<Rightarrow> uint \<Rightarrow> uint64 \<Rightarrow> uint \<Rightarrow> uint \<Rightarrow> SignedTx" where
  "transfer a b v n t g p =
     \<lparr> From = a, To = b, Gas = g, GasPrice = p, Value = v, Nonce = n, Time = t, Sig = [1] \<rparr>"

definition forged :: "SignedTx \<Rightarrow> SignedTx" where
  "forged tx = tx\<lparr>Sig := []\<rparr>"

definition block_of :: "uint64 \<Rightarrow> Hash \<Rightarrow> Address \<Rightarrow> SignedTx list \<Rightarrow> Block" where
  "block_of n p m txs =
     \<lparr> Header = \<lparr> Parent = p, Number = n, PowNonce = 0, BlockTime = 0, Miner = m \<rparr>,
       TXs = txs \<rparr>"

text \<open>
  An environment in which a transaction is authentic when it carries a signature, every
  hash meets every difficulty, the hash of a block is its number plus 1, the block reward
  is 100, the log always takes the whole record, and the only line the decoder accepts is
  \<open>''B0''\<close>, the record of a first block mined by carol with one transfer in it.
\<close>

definition env0 :: Env where
  "env0 =
     \<lparr> IsAuthentic = (\<lambda>tx. Inr (Sig tx \<noteq> [])),
       BlockHash = (\<lambda>b. Inr (ucast (Number (Header b)) + 1)),
       IsBlockHashValid = (\<lambda>h d. True),
       BlockReward = 100,
       SortSlice = sort_by,
       JsonMarshal = (\<lambda>r. Inr ''{}''),
       JsonUnmarshal = (\<lambda>l. if l = ''B0''
                             then Inr \<lparr> Key = 1,
                                       Val = block_of 0 0 carol [transfer alice bob 100 1 5 0 0] \<rparr>
                             else Inl ''unexpected end of JSON input''),
       FileWrite = (\<lambda>old data. (length data, None)) \<rparr>"

text \<open>
  The same with the sort of Go's library, whatever the step of its generator, and with a
  disk that fills up after one byte.
\<close>

definition env_go :: "(64 word \<Rightarrow> 64 word) \<Rightarrow> Env" where
  "env_go nxt = env0\<lparr>SortSlice := Slice nxt\<rparr>"

definition env_full :: Env where
  "env_full = env0\<lparr>FileWrite := (\<lambda>old data. (1, Some ''no space left on device''))\<rparr>"

text \<open>
  The state before the first block, with 1000 units on alice's account and the fork at
  block 35; the same with the fork at block 0 (active from the start); and a state whose
  latest block has number 1 and hash 9.
\<close>

definition genesis_state :: State where
  "genesis_state =
     \<lparr> Balances = [alice \<mapsto> 1000],
       Account2Nonce = Map.empty,
       latestBlock = block_of 0 0 0 [],
       latestBlockHash = 0,
       hasGenesisBlock = False,
       miningDifficulty = 0,
       forkTIP1 = 35 \<rparr>"

definition forked_state :: State where
  "forked_state = genesis_state\<lparr>forkTIP1 := 0\<rparr>"

definition later_state :: State where
  "later_state =
     genesis_state\<lparr> latestBlock := block_of 1 1 carol [], latestBlockHash := 9,
                     hasGenesisBlock := True \<rparr>"

text \<open>The genesis state with one unit on bob's account as well.\<close>

definition rich_state :: State where
  "rich_state = genesis_state\<lparr>Balances := [alice \<mapsto> 1000, bob \<mapsto> 1]\<rparr>"

definition genesis0 :: Genesis where
  "genesis0 = \<lparr> GenBalances = [alice \<mapsto> 1000], GenSymbol = ''CPT'', GenForkTIP1 = 35 \<rparr>"

definition two_tx_block :: Block where
  "two_tx_block =
     block_of 0 0 carol [transfer alice bob 100 1 5 0 0, transfer alice bob 100 7 6 0 0]"





text \<open>The state after the block of the record \<open>''B0''\<close> has been applied to the genesis state.\<close>

definition after_B0 :: State where
  "after_B0 =
     \<lparr> Balances = [alice \<mapsto> 878, bob \<mapsto> 100, carol \<mapsto> 122],
       Account2Nonce = [alice \<mapsto> 1],
       latestBlock = block_of 0 0 carol [transfer alice bob 100 1 5 0 0],
       latestBlockHash = 1,
       hasGenesisBlock = True,
       miningDifficulty = 0,
       forkTIP1 = 35 \<rparr>"

subsection \<open>What a block's transactions move on one account\<close>

text \<open>
  The value the transactions of a list credit to an account as their recipient, and the
  cost they charge it as their sender, both summed in 64-bit arithmetic.
\<close>

definition received :: "Address \<Rightarrow> SignedTx list \<Rightarrow> uint" where
  "received a txs = sum_list (map Value (filter (\<lambda>tx. To tx = a) txs))"

definition spent :: "Address \<Rightarrow> bool \<Rightarrow> SignedTx list \<Rightarrow> uint" where
  "spent a isTip1Fork txs =
     sum_list (map (\<lambda>tx. Cost tx isTip1Fork) (filter (\<lambda>tx. From tx = a) txs))"

subsection \<open>Kinds of error\<close>

text \<open>The errors that come out of validating a transaction.\<close>

fun validation_error :: "error \<Rightarrow> bool" where
  "validation_error (ErrAuthentic m) = True"
| "validation_error (ErrForged a) = True"
| "validation_error (ErrNonce a e g) = True"
| "validation_error (ErrGas g) = True"
| "validation_error (ErrGasPrice p) = True"
| "validation_error ErrGasBeforeFork = True"
| "validation_error (ErrBalance a b c) = True"
| "validation_error (ErrBlockNumber e g) = False"
| "validation_error (ErrParent h p) = False"
| "validation_error (ErrInvalidHash h) = False"
| "validation_error (ErrHash m) = False"
| "validation_error (ErrMarshal m) = False"
| "validation_error (ErrUnmarshal m) = False"
| "validation_error (ErrWrite m) = False"
| "validation_error (ErrScan m) = False"
| "validation_error (ErrInit m) = False"

section \<open>Properties\<close>

lemmas model_defs =
  ValidateTx_def ApplyTx_def applyTXs_def applyBlock_def AddBlock_def NewStateFromDisk_def
  GetNextAccountNonce_def map_index_def IsTIP1Fork_def NextBlockNumber_def LatestBlock_def
  Cost_def GasReward_def TxGas_def TxGasPriceDefault_def TxFee_def Copy_def
  Balances_sub_def Balances_add_def time_less_def Let_def

lemmas example_defs =
  env0_def env_go_def env_full_def genesis_state_def forked_state_def later_state_def
  genesis0_def transfer_def forged_def block_of_def alice_def bob_def carol_def
  sort_by_def two_tx_block_def after_B0_def rich_state_def

subsection \<open>Validation reads the snapshot and leaves it alone\<close>

lemma ValidateTx_state: "snd (ValidateTx env tx s) = s"
  by (simp add: ValidateTx_def Let_def split: sum.splits option.splits)

lemma ValidateTx_eq: "ValidateTx env tx s = (fst (ValidateTx env tx s), s)"
  by (metis ValidateTx_state prod.collapse)

text \<open>
  C9. Whatever validation answers, the snapshot it was given comes back as it was: the
  balance table, the nonce table, the latest block and its hash, the genesis flag, the
  difficulty and the fork threshold, that is, the whole state record.
\<close>

theorem ValidateTx_leaves_snapshot_unchanged:
  "snd (ValidateTx env tx s) = s"
  by (simp add: ValidateTx_def Let_def split: sum.splits option.splits)

text \<open>A transfer with nonce 7 where 1 is due: validation fails, the state is the same.\<close>

theorem ValidateTx_leaves_snapshot_unchanged_witness:
  "fst (ValidateTx env0 (transfer alice bob 100 7 5 0 0) genesis_state)
     = Some (ErrNonce alice 1 7)
   \<and> snd (ValidateTx env0 (transfer alice bob 100 7 5 0 0) genesis_state) = genesis_state"
  using ValidateTx_leaves_snapshot_unchanged
          [of env0 "transfer alice bob 100 7 5 0 0" genesis_state]
  by (simp add: model_defs example_defs)

subsection \<open>The debit of a validated transaction does not wrap\<close>

text \<open>
  C10. When validation succeeds, the cost of the transaction at the current fork setting
  is at most the sender's balance, so the unsigned subtraction of ApplyTx does not
  underflow: what is left after the debit, plus the cost, is the old balance as natural
  numbers. And when validation fails for lack of funds, the cost is strictly above the
  balance: a cost equal to the balance is not refused, and the debit then leaves 0.
\<close>

theorem ValidateTx_ok_cost_le_balance:
  "(fst (ValidateTx env tx s) = None \<longrightarrow>
      Cost tx (IsTIP1Fork s) \<le> map_index (Balances s) (From tx)
      \<and> unat (map_index (Balances (Balances_sub s (From tx) (Cost tx (IsTIP1Fork s))))
                (From tx))
          + unat (Cost tx (IsTIP1Fork s))
        = unat (map_index (Balances s) (From tx)))
   \<and> (fst (ValidateTx env tx s) = Some (ErrBalance a bal c) \<longrightarrow>
      a = From tx \<and> bal = map_index (Balances s) (From tx)
      \<and> c = Cost tx (IsTIP1Fork s) \<and> bal < c)"
proof -
  have sub: "map_index (Balances (Balances_sub s (From tx) (Cost tx (IsTIP1Fork s)))) (From tx)
        = map_index (Balances s) (From tx) - Cost tx (IsTIP1Fork s)"
    by (simp add: Balances_sub_def map_index_def)
  have ok: "Cost tx (IsTIP1Fork s) \<le> map_index (Balances s) (From tx)"
    if "fst (ValidateTx env tx s) = None"
    using that
    by (auto simp: ValidateTx_def Let_def split: sum.splits option.splits if_splits)
  have no_wrap: "unat (map_index (Balances s) (From tx) - Cost tx (IsTIP1Fork s))
                   + unat (Cost tx (IsTIP1Fork s))
                 = unat (map_index (Balances s) (From tx))"
    if "Cost tx (IsTIP1Fork s) \<le> map_index (Balances s) (From tx)"
    using that by (simp add: unat_sub word_le_nat_alt)
  have refused: "a = From tx \<and> bal = map_index (Balances s) (From tx)
      \<and> c = Cost tx (IsTIP1Fork s) \<and> bal < c"
    if "fst (ValidateTx env tx s) = Some (ErrBalance a bal c)"
    using that
    by (auto simp: ValidateTx_def Let_def split: sum.splits option.splits if_splits)
  show ?thesis
    unfolding sub using ok no_wrap refused by blast
qed

text \<open>
  Alice holds 1000 and sends 978 before the fork: the cost is 1000, validation passes and
  her balance is 0 afterwards.
\<close>

theorem ValidateTx_ok_cost_le_balance_witness:
  "fst (ValidateTx env0 (transfer alice bob 978 1 5 0 0) genesis_state) = None
   \<and> Cost (transfer alice bob 978 1 5 0 0) (IsTIP1Fork genesis_state) = 1000
   \<and> map_index (Balances genesis_state) alice = 1000
   \<and> map_index
        (Balances (snd (ApplyTx env0 (transfer alice bob 978 1 5 0 0) genesis_state))) alice
       = 0"
  using ValidateTx_ok_cost_le_balance
          [of env0 "transfer alice bob 978 1 5 0 0" genesis_state alice 0 0]
  by (simp add: model_defs example_defs)

subsection \<open>The fork-gated check of the gas fields\<close>

text \<open>
  C3, as the code has it. The fork is active when the next block number has reached the
  fork threshold. The gas checks come third in ValidateTx, after the signature and the
  nonce, and the gas price is looked at only once the gas amount has passed. So validation
  fails with the insufficient-gas error exactly when the transaction is authentic, carries
  the expected nonce, the fork is active and its gas is not 22; with the
  insufficient-gas-price error exactly when, besides, its gas is 22 and its gas price is
  below 2; and with the premature-gas-fields error exactly when it is authentic, carries
  the expected nonce, the fork is inactive and one of the two gas fields is not 0.
\<close>

theorem ValidateTx_fee_field_errors:
  "(fst (ValidateTx env tx s) = Some (ErrGas g) \<longleftrightarrow>
      IsAuthentic env tx = Inr True \<and> Nonce tx = GetNextAccountNonce s (From tx)
      \<and> forkTIP1 s \<le> NextBlockNumber s \<and> Gas tx \<noteq> 22 \<and> g = Gas tx)
   \<and> (fst (ValidateTx env tx s) = Some (ErrGasPrice p) \<longleftrightarrow>
      IsAuthentic env tx = Inr True \<and> Nonce tx = GetNextAccountNonce s (From tx)
      \<and> forkTIP1 s \<le> NextBlockNumber s \<and> Gas tx = 22 \<and> GasPrice tx < 2 \<and> p = GasPrice tx)
   \<and> (fst (ValidateTx env tx s) = Some ErrGasBeforeFork \<longleftrightarrow>
      IsAuthentic env tx = Inr True \<and> Nonce tx = GetNextAccountNonce s (From tx)
      \<and> \<not> forkTIP1 s \<le> NextBlockNumber s \<and> (Gas tx \<noteq> 0 \<or> GasPrice tx \<noteq> 0))"
  by (auto simp: ValidateTx_def Let_def IsTIP1Fork_def TxGas_def TxGasPriceDefault_def
           split: sum.splits option.splits if_splits)

text \<open>
  After the fork: gas 0 is the gas error, gas 22 at price 1 the price error. Before the
  fork: gas 22 at price 2 is the premature-gas-fields error.
\<close>

theorem ValidateTx_fee_field_errors_witness:
  "fst (ValidateTx env0 (transfer alice bob 100 1 5 0 0) forked_state) = Some (ErrGas 0)
   \<and> fst (ValidateTx env0 (transfer alice bob 100 1 5 22 1) forked_state)
       = Some (ErrGasPrice 1)
   \<and> fst (ValidateTx env0 (transfer alice bob 100 1 5 22 2) genesis_state)
       = Some ErrGasBeforeFork"
  using ValidateTx_fee_field_errors [of env0 "transfer alice bob 100 1 5 0 0" forked_state 0 0]
        ValidateTx_fee_field_errors [of env0 "transfer alice bob 100 1 5 22 1" forked_state 0 1]
        ValidateTx_fee_field_errors [of env0 "transfer alice bob 100 1 5 22 2" genesis_state 0 0]
  by (simp add: model_defs example_defs)

text \<open>
  The claim as worded fails: with the fork active, an authentic transaction with the
  expected nonce and both gas fields 0 has a gas price below 2, and validation fails with
  the insufficient-gas error, not the insufficient-gas-price error.
\<close>

theorem ValidateTx_gas_price_counterexample:
  "forkTIP1 forked_state \<le> NextBlockNumber forked_state
   \<and> GasPrice (transfer alice bob 100 1 5 0 0) < 2
   \<and> fst (ValidateTx env0 (transfer alice bob 100 1 5 0 0) forked_state) = Some (ErrGas 0)"
  by (simp add: model_defs example_defs)

subsection \<open>The nonce check\<close>

text \<open>
  C6, as the code has it. The next nonce of an account is its last-used nonce plus 1 (in
  64-bit arithmetic), and 1 for an account with no entry in the nonce table. The nonce
  check comes second in ValidateTx, after the signature: validation fails with the
  bad-nonce error, which carries the sender, the expected and the given nonce, exactly when
  the transaction is authentic and its nonce differs from the sender's next nonce on the
  snapshot.
\<close>

theorem ValidateTx_nonce_error:
  "GetNextAccountNonce s account
     = (case Account2Nonce s account of None \<Rightarrow> 1 | Some used \<Rightarrow> used + 1)
   \<and> (fst (ValidateTx env tx s) = Some (ErrNonce a e g) \<longleftrightarrow>
        IsAuthentic env tx = Inr True \<and> Nonce tx \<noteq> GetNextAccountNonce s (From tx)
        \<and> a = From tx \<and> e = GetNextAccountNonce s (From tx) \<and> g = Nonce tx)"
  by (auto simp: ValidateTx_def Let_def GetNextAccountNonce_def map_index_def
           split: sum.splits option.splits if_splits)

text \<open>Alice has sent nothing yet: her next nonce is 1, and nonce 7 is refused.\<close>

theorem ValidateTx_nonce_error_witness:
  "GetNextAccountNonce genesis_state alice = 1
   \<and> fst (ValidateTx env0 (transfer alice bob 100 7 5 0 0) genesis_state)
       = Some (ErrNonce alice 1 7)"
  using ValidateTx_nonce_error
          [of genesis_state alice env0 "transfer alice bob 100 7 5 0 0" alice 1 7]
  by (simp add: model_defs example_defs)

text \<open>
  The claim as worded fails: a transaction with a forged signature and a nonce other
  than the sender's next nonce fails with the forged-sender error, not the bad-nonce error.
\<close>

theorem ValidateTx_nonce_counterexample:
  "Nonce (forged (transfer alice bob 100 7 5 0 0))
     \<noteq> GetNextAccountNonce genesis_state (From (forged (transfer alice bob 100 7 5 0 0)))
   \<and> fst (ValidateTx env0 (forged (transfer alice bob 100 7 5 0 0)) genesis_state)
       = Some (ErrForged alice)"
  by (simp add: model_defs example_defs)

subsection \<open>The number and parent checks of a block\<close>

lemma ValidateTx_error_kind:
  "fst (ValidateTx env tx s) = Some err \<Longrightarrow> validation_error err"
  by (auto simp: ValidateTx_def Let_def split: sum.splits option.splits if_splits)

lemma ApplyTx_error_kind:
  "fst (ApplyTx env tx s) = Some err \<Longrightarrow> validation_error err"
  using ValidateTx_error_kind [of env tx s err]
  by (auto simp: ApplyTx_def Let_def split: prod.splits option.splits)

lemma applyTXs_loop_error_kind:
  "fst (applyTXs_loop env txs s) = Some err \<Longrightarrow> validation_error err"
proof (induction txs arbitrary: s)
  case Nil
  then show ?case by simp
next
  case (Cons tx txs)
  show ?case
  proof (cases "ApplyTx env tx s")
    case (Pair r s1)
    show ?thesis
    proof (cases r)
      case None
      with Pair Cons.prems have "fst (applyTXs_loop env txs s1) = Some err" by simp
      then show ?thesis by (rule Cons.IH)
    next
      case (Some e1)
      with Pair Cons.prems have "fst (ApplyTx env tx s) = Some err" by simp
      then show ?thesis by (rule ApplyTx_error_kind)
    qed
  qed
qed

lemma applyTXs_error_kind:
  "fst (applyTXs env txs s) = Some err \<Longrightarrow> validation_error err"
  using applyTXs_loop_error_kind [of env "SortSlice env time_less txs" s err]
  by (auto simp: applyTXs_def Let_def split: prod.splits)

text \<open>applyBlock adds the errors of its own checks and of hashing the block.\<close>

lemma applyBlock_error_kind:
  assumes "fst (applyBlock env b s) = Some err"
  shows "validation_error err \<or> (\<exists>e g. err = ErrBlockNumber e g)
       \<or> (\<exists>h p. err = ErrParent h p) \<or> (\<exists>m. err = ErrHash m) \<or> (\<exists>h. err = ErrInvalidHash h)"
proof -
  have tx: "\<And>e1. fst (applyTXs env (TXs b) s) = Some e1 \<Longrightarrow> validation_error e1"
    by (rule applyTXs_error_kind)
  show ?thesis
    using assms tx
    by (auto simp: applyBlock_def Let_def split: sum.splits option.splits prod.splits if_splits)
qed

text \<open>
  C7, as the code has it. The number check is the first thing applyBlock does: applying a
  block fails with the wrong-block-number error exactly when the state holds a committed
  block and the header's number differs from the latest block's number plus 1 (in 64-bit
  arithmetic). The parent check comes second, so it is reached only by a block that passed
  the number check: applying a block fails with the wrong-parent error exactly when the
  state holds a committed block whose number is above 0, the header's number is the
  expected one and the header's parent differs from the latest block hash. With no
  committed block, or with a latest block of number 0, no parent is compared.
\<close>

theorem applyBlock_number_and_parent_errors:
  "(fst (applyBlock env b s) = Some (ErrBlockNumber e g) \<longleftrightarrow>
      hasGenesisBlock s \<and> Number (Header b) \<noteq> Number (Header (latestBlock s)) + 1
      \<and> e = Number (Header (latestBlock s)) + 1 \<and> g = Number (Header b))
   \<and> (fst (applyBlock env b s) = Some (ErrParent h p) \<longleftrightarrow>
      hasGenesisBlock s \<and> Number (Header b) = Number (Header (latestBlock s)) + 1
      \<and> 0 < Number (Header (latestBlock s)) \<and> Parent (Header b) \<noteq> latestBlockHash s
      \<and> h = latestBlockHash s \<and> p = Parent (Header b))"
proof -
  have tx: "\<And>err. fst (applyTXs env (TXs b) s) = Some err \<Longrightarrow> validation_error err"
    by (rule applyTXs_error_kind)
  show ?thesis
    using tx
    by (auto simp: applyBlock_def Let_def split: sum.splits option.splits prod.splits if_splits)
qed

text \<open>
  On a state whose latest block has number 1 and hash 9: a block numbered 5 is refused
  for its number, a block numbered 2 with parent 8 for its parent.
\<close>

theorem applyBlock_number_and_parent_errors_witness:
  "fst (applyBlock env0 (block_of 5 9 carol []) later_state) = Some (ErrBlockNumber 2 5)
   \<and> fst (applyBlock env0 (block_of 2 8 carol []) later_state) = Some (ErrParent 9 8)"
  using applyBlock_number_and_parent_errors [of env0 "block_of 5 9 carol []" later_state 2 5 9 8]
        applyBlock_number_and_parent_errors [of env0 "block_of 2 8 carol []" later_state 2 5 9 8]
  by (simp add: model_defs example_defs)

text \<open>
  The claim as worded fails: the latest block has a number above 0 and the new block's
  parent differs from the latest block hash, yet applying it fails with the
  wrong-block-number error, not the wrong-parent error, because its number is wrong too.
\<close>

theorem applyBlock_parent_counterexample:
  "hasGenesisBlock later_state
   \<and> 0 < Number (Header (latestBlock later_state))
   \<and> Parent (Header (block_of 5 8 carol [])) \<noteq> latestBlockHash later_state
   \<and> fst (applyBlock env0 (block_of 5 8 carol []) later_state) = Some (ErrBlockNumber 2 5)"
  by (simp add: model_defs example_defs)

subsection \<open>What applying a transaction changes\<close>

lemma ApplyTx_ok:
  assumes "ApplyTx env tx s = (None, s')"
  shows "fst (ValidateTx env tx s) = None"
    and "s' = (Balances_add (Balances_sub s (From tx) (Cost tx (IsTIP1Fork s))) (To tx) (Value tx))
               \<lparr>Account2Nonce := (Account2Nonce s)(From tx \<mapsto> Nonce tx)\<rparr>"
proof -
  have v: "ValidateTx env tx s = (fst (ValidateTx env tx s), s)" by (rule ValidateTx_eq)
  show 1: "fst (ValidateTx env tx s) = None"
    using assms v by (cases "fst (ValidateTx env tx s)") (auto simp: ApplyTx_def Let_def)
  with v have "ValidateTx env tx s = (None, s)" by simp
  with assms show "s' = (Balances_add (Balances_sub s (From tx) (Cost tx (IsTIP1Fork s))) (To tx) (Value tx))
               \<lparr>Account2Nonce := (Account2Nonce s)(From tx \<mapsto> Nonce tx)\<rparr>"
    by (simp add: ApplyTx_def Let_def Balances_add_def Balances_sub_def)
qed

text \<open>
  C8, as the code has it. The cost of a transaction is its total charge: its value plus
  gas times gas price when the fork is active, its value plus the flat fee of 22
  otherwise, computed in Go's 64-bit unsigned arithmetic, that is, modulo \<open>2 ^ 64\<close>. A
  transaction that is applied successfully takes exactly that cost off the sender's
  balance (as natural numbers: new balance + cost = old balance, the value is in the cost
  and is paid once), makes the recipient's balance the old balance plus the value modulo
  \<open>2 ^ 64\<close>, and sets the sender's last-used nonce to the transaction's nonce. When
  sender and recipient are the same account, its balance ends at the old balance minus the
  cost plus the value, modulo \<open>2 ^ 64\<close>. No other account's balance or nonce changes, and
  nothing else in the state does.
\<close>

theorem ApplyTx_effect:
  assumes "ApplyTx env tx s = (None, s')"
  shows "Cost tx (IsTIP1Fork s)
           = Value tx + (if IsTIP1Fork s then Gas tx * GasPrice tx else 22)
       \<and> unat (Cost tx (IsTIP1Fork s))
           = (unat (Value tx)
              + (if IsTIP1Fork s then unat (Gas tx) * unat (GasPrice tx) else 22)) mod 2 ^ 64
       \<and> (From tx \<noteq> To tx \<longrightarrow>
            unat (map_index (Balances s') (From tx)) + unat (Cost tx (IsTIP1Fork s))
              = unat (map_index (Balances s) (From tx))
          \<and> unat (map_index (Balances s') (To tx))
              = (unat (map_index (Balances s) (To tx)) + unat (Value tx)) mod 2 ^ 64)
       \<and> (From tx = To tx \<longrightarrow>
            unat (map_index (Balances s') (From tx))
              = (unat (map_index (Balances s) (From tx)) - unat (Cost tx (IsTIP1Fork s))
                 + unat (Value tx)) mod 2 ^ 64)
       \<and> Account2Nonce s' (From tx) = Some (Nonce tx)
       \<and> (\<forall>a. a \<noteq> From tx \<and> a \<noteq> To tx \<longrightarrow> Balances s' a = Balances s a)
       \<and> (\<forall>a. a \<noteq> From tx \<longrightarrow> Account2Nonce s' a = Account2Nonce s a)
       \<and> latestBlock s' = latestBlock s \<and> latestBlockHash s' = latestBlockHash s
       \<and> hasGenesisBlock s' = hasGenesisBlock s \<and> miningDifficulty s' = miningDifficulty s
       \<and> forkTIP1 s' = forkTIP1 s"
proof -
  let ?c = "Cost tx (IsTIP1Fork s)"
  let ?bal = "map_index (Balances s) (From tx)"
  let ?to = "map_index (Balances s) (To tx)"
  have s': "s' = (Balances_add (Balances_sub s (From tx) ?c) (To tx) (Value tx))
               \<lparr>Account2Nonce := (Account2Nonce s)(From tx \<mapsto> Nonce tx)\<rparr>"
    by (rule ApplyTx_ok(2) [OF assms])
  have le: "?c \<le> ?bal"
    using ApplyTx_ok(1) [OF assms]
    by (auto simp: ValidateTx_def Let_def split: sum.splits option.splits if_splits)
  have sub: "unat (?bal - ?c) + unat ?c = unat ?bal"
    using le by (simp add: unat_sub word_le_nat_alt)
  have add: "\<And>x y :: uint. unat (x + y) = (unat x + unat y) mod 2 ^ 64"
    by (simp add: unat_word_ariths)
  have cost_w: "?c = Value tx + (if IsTIP1Fork s then Gas tx * GasPrice tx else 22)"
    by (simp add: Cost_def TxFee_def)
  have cost_n: "unat ?c
           = (unat (Value tx)
              + (if IsTIP1Fork s then unat (Gas tx) * unat (GasPrice tx) else 22)) mod 2 ^ 64"
    unfolding cost_w by (simp add: unat_word_ariths mod_simps)
  have ne: "map_index (Balances s') (From tx) = ?bal - ?c
          \<and> map_index (Balances s') (To tx) = ?to + Value tx" if "From tx \<noteq> To tx"
    using that unfolding s' by (simp add: Balances_add_def Balances_sub_def map_index_def)
  have eq: "map_index (Balances s') (From tx) = ?bal - ?c + Value tx" if "From tx = To tx"
    using that unfolding s' by (simp add: Balances_add_def Balances_sub_def map_index_def)
  have ne_n: "unat (map_index (Balances s') (From tx)) + unat ?c = unat ?bal
          \<and> unat (map_index (Balances s') (To tx)) = (unat ?to + unat (Value tx)) mod 2 ^ 64"
    if "From tx \<noteq> To tx"
    using ne [OF that] sub add [of ?to "Value tx"] by simp
  have eq_n: "unat (map_index (Balances s') (From tx))
              = (unat ?bal - unat ?c + unat (Value tx)) mod 2 ^ 64" if "From tx = To tx"
  proof -
    have "unat (?bal - ?c) = unat ?bal - unat ?c" using sub by linarith
    then show ?thesis using eq [OF that] add [of "?bal - ?c" "Value tx"] by simp
  qed
  have frame: "Account2Nonce s' (From tx) = Some (Nonce tx)
       \<and> (\<forall>a. a \<noteq> From tx \<and> a \<noteq> To tx \<longrightarrow> Balances s' a = Balances s a)
       \<and> (\<forall>a. a \<noteq> From tx \<longrightarrow> Account2Nonce s' a = Account2Nonce s a)
       \<and> latestBlock s' = latestBlock s \<and> latestBlockHash s' = latestBlockHash s
       \<and> hasGenesisBlock s' = hasGenesisBlock s \<and> miningDifficulty s' = miningDifficulty s
       \<and> forkTIP1 s' = forkTIP1 s"
    unfolding s' by (simp add: Balances_add_def Balances_sub_def)
  show ?thesis
    using cost_w cost_n ne_n eq_n frame by blast
qed

text \<open>
  Alice holds 1000 and sends 100 to bob before the fork: the cost is 122, she is left
  with 878 and nonce 1, bob has 100.
\<close>

theorem ApplyTx_effect_witness:
  "fst (ApplyTx env0 (transfer alice bob 100 1 5 0 0) genesis_state) = None
   \<and> unat (Cost (transfer alice bob 100 1 5 0 0) (IsTIP1Fork genesis_state)) = 122
   \<and> unat (map_index (Balances (snd (ApplyTx env0 (transfer alice bob 100 1 5 0 0)
                 genesis_state))) alice) = 878
   \<and> unat (map_index (Balances (snd (ApplyTx env0 (transfer alice bob 100 1 5 0 0)
                 genesis_state))) bob) = 100
   \<and> Account2Nonce (snd (ApplyTx env0 (transfer alice bob 100 1 5 0 0) genesis_state)) alice
       = Some 1"
proof -
  let ?r = "ApplyTx env0 (transfer alice bob 100 1 5 0 0) genesis_state"
  have run: "fst ?r = None" by (simp add: model_defs example_defs)
  then have ap: "?r = (None, snd ?r)" by (metis prod.collapse)
  show ?thesis
    using ApplyTx_effect [OF ap] run
    by (simp add: model_defs example_defs)
qed

text \<open>
  The claim as worded fails twice. It has the sender pay value + cost, which is 222 in
  the transfer above and would leave 778; the code leaves alice 878, so she paid the cost,
  122, once. And a transfer of \<open>2 ^ 64 - 1\<close> before the fork has cost 21 after the
  wrap-around, passes validation on a balance of 1000, takes 21 off alice and leaves bob,
  who held 1, with 0: the recipient's balance has not grown by the value.
\<close>

theorem ApplyTx_sender_debit_counterexample:
  "fst (ApplyTx env0 (transfer alice bob 100 1 5 0 0) genesis_state) = None
   \<and> map_index (Balances genesis_state) alice = 1000
   \<and> Value (transfer alice bob 100 1 5 0 0)
       + Cost (transfer alice bob 100 1 5 0 0) (IsTIP1Fork genesis_state) = 222
   \<and> map_index (Balances (snd (ApplyTx env0 (transfer alice bob 100 1 5 0 0) genesis_state))) alice
       = 878
   \<and> fst (ApplyTx env0 (transfer alice bob 18446744073709551615 1 5 0 0) rich_state) = None
   \<and> map_index (Balances rich_state) bob = 1
   \<and> map_index (Balances (snd (ApplyTx env0 (transfer alice bob 18446744073709551615 1 5 0 0)
         rich_state))) bob = 0
   \<and> map_index (Balances (snd (ApplyTx env0 (transfer alice bob 18446744073709551615 1 5 0 0)
         rich_state))) alice = 979"
  by (simp add: model_defs example_defs)

subsection \<open>A failed AddBlock\<close>

lemma Copy_id: "Copy s = s"
  by (simp add: Copy_def)

text \<open>
  C1, as the code has it. When AddBlock returns an error, whichever step it came from
  (the block checks, a transaction, hashing, serialising, the write to the log), the live
  state is the state before the call: balance table, nonce table, latest block and hash,
  genesis flag, difficulty. The log is untouched too unless the error is the one of the
  write itself: AddBlock ignores how many bytes \<^verbatim>\<open>Write\<close> reports as written, so after
  a failed write the log holds what it held before followed by as much of the record of
  \<open>b\<close> as the write had put down. That record is the JSON of the hash and the block that
  applyBlock left on the copy of the state (its transactions sorted), with a newline after
  it.
\<close>

theorem AddBlock_error_keeps_state:
  assumes "AddBlock env b s dbFile = (Inl err, s', dbFile')"
  shows "s' = s
       \<and> ((\<forall>m. err \<noteq> ErrWrite m) \<longrightarrow> dbFile' = dbFile)
       \<and> (\<forall>m. err = ErrWrite m \<longrightarrow>
            (\<exists>pending b1 h json n.
                 applyBlock env b (Copy s) = (None, pending, b1)
               \<and> BlockHash env b1 = Inr h
               \<and> JsonMarshal env \<lparr> Key = h, Val = b1 \<rparr> = Inr json
               \<and> FileWrite env dbFile (json @ [CHR 0x0A]) = (n, Some m)
               \<and> dbFile' = dbFile @ take n (json @ [CHR 0x0A])))"
proof -
  have ab: "\<And>e1. fst (applyBlock env b (Copy s)) = Some e1 \<Longrightarrow> \<forall>m. e1 \<noteq> ErrWrite m"
    using applyBlock_error_kind [of env b "Copy s"] by fastforce
  show ?thesis
    using assms ab
    by (auto simp: AddBlock_def Let_def split: prod.splits option.splits sum.splits)
qed

text \<open>
  A block of two transfers by alice, the first valid, the second with nonce 7 where 2 is
  due. On the copy, applyBlock has already taken the first transfer off alice's balance
  (878 left) when the second fails; AddBlock returns the error, the state it was called
  on and the log as it was.
\<close>

theorem AddBlock_error_keeps_state_witness:
  "AddBlock env0 two_tx_block genesis_state ''old''
     = (Inl (ErrNonce alice 2 7), genesis_state, ''old'')
   \<and> map_index (Balances (fst (snd (applyBlock env0 two_tx_block (Copy genesis_state))))) alice
       = 878"
proof -
  have ab: "AddBlock env0 two_tx_block genesis_state ''old''
     = (Inl (ErrNonce alice 2 7), genesis_state, ''old'')"
    by (simp add: model_defs example_defs)
  show ?thesis
    using AddBlock_error_keeps_state [OF ab] ab
    by (simp add: model_defs example_defs)
qed

text \<open>
  The claim as worded fails in its last part: on a disk that takes one byte of the
  record and then reports an error, AddBlock returns that error and leaves the state alone,
  but the first byte of the block's record is in the log.
\<close>

theorem AddBlock_failed_write_counterexample:
  "AddBlock env_full (block_of 0 0 carol [transfer alice bob 100 1 5 0 0]) genesis_state ''''
     = (Inl (ErrWrite ''no space left on device''), genesis_state, ''{'')"
  by (simp add: model_defs example_defs)

subsection \<open>Replaying the log\<close>

declare Scanner.simps [simp del]






lemma dropCR_short_record: "short_record r \<Longrightarrow> dropCR r = r"
  by (simp add: short_record_def dropCR_def)








subsection \<open>The order in which a block's transactions are applied\<close>

lemma mset_insort_by: "mset (insort_by lt x ys) = add_mset x (mset ys)"
  by (induction ys) auto

lemma mset_sort_by: "mset (sort_by lt xs) = mset xs"
  by (induction xs) (auto simp: sort_by_def mset_insort_by)

lemma set_insort_by: "set (insort_by lt x ys) = insert x (set ys)"
  by (induction ys) auto

lemma sorted_insort_by_time:
  "sorted_wrt (\<lambda>a b. \<not> time_less b a) ys \<Longrightarrow>
   sorted_wrt (\<lambda>a b. \<not> time_less b a) (insort_by time_less x ys)"
  by (induction ys) (auto simp: set_insort_by time_less_def)

lemma sorted_sort_by_time: "sorted_wrt (\<lambda>a b. \<not> time_less b a) (sort_by time_less xs)"
  by (induction xs) (auto simp: sort_by_def sorted_insort_by_time)

lemma sort_contract_env0: "sort_contract env0"
  by (simp add: sort_contract_def env0_def mset_sort_by sorted_sort_by_time)




























subsection \<open>The miner's balance after a block\<close>

lemma ApplyTx_fork: "IsTIP1Fork (snd (ApplyTx env tx s)) = IsTIP1Fork s"
proof -
  have v: "ValidateTx env tx s = (fst (ValidateTx env tx s), s)" by (rule ValidateTx_eq)
  show ?thesis
    by (cases "fst (ValidateTx env tx s)"; subst ApplyTx_def; subst v)
       (simp_all add: Let_def IsTIP1Fork_def NextBlockNumber_def LatestBlock_def
          Balances_add_def Balances_sub_def)
qed

lemma Balances_add_fork: "IsTIP1Fork (Balances_add s k v) = IsTIP1Fork s"
  by (simp add: IsTIP1Fork_def NextBlockNumber_def LatestBlock_def Balances_add_def)

lemma applyTXs_loop_fork: "IsTIP1Fork (snd (applyTXs_loop env txs s)) = IsTIP1Fork s"
proof (induction txs arbitrary: s)
  case Nil
  then show ?case by simp
next
  case (Cons tx txs)
  show ?case
  proof (cases "ApplyTx env tx s")
    case (Pair r s1)
    have f: "IsTIP1Fork s1 = IsTIP1Fork s"
      using ApplyTx_fork [of env tx s] Pair by simp
    show ?thesis
      using Pair f Cons.IH [of s1] by (cases r) simp_all
  qed
qed

lemma ApplyTx_balance:
  assumes "ApplyTx env tx s = (None, s')"
  shows "map_index (Balances s') a
           = map_index (Balances s) a + received a [tx] - spent a (IsTIP1Fork s) [tx]"
  using ApplyTx_ok(2) [OF assms]
  by (simp add: Balances_add_def Balances_sub_def map_index_def received_def spent_def)

lemma received_Cons: "received a (tx # txs) = received a [tx] + received a txs"
  by (simp add: received_def)

lemma spent_Cons: "spent a f (tx # txs) = spent a f [tx] + spent a f txs"
  by (simp add: spent_def)

lemma applyTXs_loop_balance:
  "applyTXs_loop env txs s = (None, s') \<Longrightarrow>
     map_index (Balances s') a
       = map_index (Balances s) a + received a txs - spent a (IsTIP1Fork s) txs"
proof (induction txs arbitrary: s)
  case Nil
  then show ?case by (simp add: received_def spent_def)
next
  case (Cons tx txs)
  show ?case
  proof (cases "ApplyTx env tx s")
    case (Pair r s1)
    with Cons.prems have r: "r = None" and rest: "applyTXs_loop env txs s1 = (None, s')"
      by (cases r; simp)+
    have f: "IsTIP1Fork s1 = IsTIP1Fork s"
      using ApplyTx_fork [of env tx s] Pair by simp
    have step: "map_index (Balances s1) a
           = map_index (Balances s) a + received a [tx] - spent a (IsTIP1Fork s) [tx]"
      using Pair r by (simp add: ApplyTx_balance)
    have "map_index (Balances s') a
           = map_index (Balances s1) a + received a txs - spent a (IsTIP1Fork s) txs"
      using Cons.IH [OF rest] f by simp
    with step show ?thesis
      by (simp add: received_Cons [of a tx txs] spent_Cons [of a _ tx txs])
  qed
qed

lemma sum_list_mset_cong:
  fixes f :: "'a \<Rightarrow> 'b::comm_monoid_add"
  assumes "mset xs = mset ys"
  shows "sum_list (map f (filter P xs)) = sum_list (map f (filter P ys))"
proof -
  have "mset (map f (filter P xs)) = mset (map f (filter P ys))"
    using assms by simp
  then have "sum_mset (mset (map f (filter P xs))) = sum_mset (mset (map f (filter P ys)))"
    by (rule arg_cong)
  then show ?thesis by (simp only: sum_mset_sum_list)
qed

lemma received_mset: "mset xs = mset ys \<Longrightarrow> received a xs = received a ys"
  unfolding received_def by (rule sum_list_mset_cong)

lemma spent_mset: "mset xs = mset ys \<Longrightarrow> spent a f xs = spent a f ys"
  unfolding spent_def by (rule sum_list_mset_cong)

lemma gas_sum_mset:
  assumes "mset xs = mset ys"
  shows "sum_list (map (\<lambda>tx. Gas tx * GasPrice tx) xs)
           = sum_list (map (\<lambda>tx. Gas tx * GasPrice tx) (ys :: SignedTx list))"
  using sum_list_mset_cong [OF assms, of "\<lambda>tx. Gas tx * GasPrice tx" "\<lambda>tx. True"] by simp

text \<open>
  C5, as the code has it. For a block that applies successfully, under any sort within
  the contract of \<^verbatim>\<open>sort.Slice\<close>, the miner's balance ends at its old balance, plus the
  value the block's transactions credit to the miner as recipient, minus the cost of the
  block's transactions that the miner sent itself, plus the block reward, plus the
  fork-gated top-up: the sum of gas times gas price over the block's transactions when the
  fork is active, the number of transactions times the flat fee of 22 otherwise. All of it
  is Go's 64-bit unsigned arithmetic.
\<close>

theorem applyBlock_miner_balance:
  assumes "sort_contract env"
      and "applyBlock env b s = (None, s', b')"
  shows "map_index (Balances s') (Miner (Header b))
           = map_index (Balances s) (Miner (Header b))
             + received (Miner (Header b)) (TXs b)
             - spent (Miner (Header b)) (IsTIP1Fork s) (TXs b)
             + BlockReward env
             + (if forkTIP1 s \<le> NextBlockNumber s
                then sum_list (map (\<lambda>tx. Gas tx * GasPrice tx) (TXs b))
                else of_nat (length (TXs b)) * 22)"
proof -
  let ?ord = "SortSlice env time_less (TXs b)"
  let ?m = "Miner (Header b)"
  obtain r s1 where loop: "applyTXs_loop env ?ord s = (r, s1)"
    by (cases "applyTXs_loop env ?ord s")
  have txs: "applyTXs env (TXs b) s = (r, s1, ?ord)"
    using loop by (simp add: applyTXs_def Let_def)
  have r: "r = None"
    using assms(2) txs
    by (cases r) (auto simp: applyBlock_def Let_def split: sum.splits if_splits)
  have perm: "mset ?ord = mset (TXs b)"
    using assms(1) by (simp add: sort_contract_def)
  have len: "length ?ord = length (TXs b)"
    using perm by (rule mset_eq_length)
  have f1: "IsTIP1Fork s1 = IsTIP1Fork s"
    using applyTXs_loop_fork [of env ?ord s] loop by simp
  have f2: "IsTIP1Fork (Balances_add s1 ?m (BlockReward env)) = IsTIP1Fork s"
    using f1 by (simp only: Balances_add_fork)
  have bal1: "map_index (Balances s1) ?m
           = map_index (Balances s) ?m + received ?m (TXs b) - spent ?m (IsTIP1Fork s) (TXs b)"
    using applyTXs_loop_balance [of env ?ord s s1 ?m] loop r
          received_mset [OF perm] spent_mset [OF perm]
    by simp
  have s': "s' = (if IsTIP1Fork s
                  then Balances_add (Balances_add s1 ?m (BlockReward env)) ?m
                         (GasReward (b\<lparr>TXs := ?ord\<rparr>))
                  else Balances_add (Balances_add s1 ?m (BlockReward env)) ?m
                         (of_nat (length ?ord) * TxFee))"
    using assms(2) txs r f2
    by (auto simp: applyBlock_def Let_def split: sum.splits if_splits)
  have gas: "GasReward (b\<lparr>TXs := ?ord\<rparr>) = sum_list (map (\<lambda>tx. Gas tx * GasPrice tx) (TXs b))"
    using gas_sum_mset [OF perm] by (simp add: GasReward_def)
  show ?thesis
    using s' bal1 gas len
    by (simp add: Balances_add_def map_index_def IsTIP1Fork_def TxFee_def)
qed

text \<open>
  Alice mines a first block that holds her own transfer of 100 to bob: she pays 122 for
  the transfer and earns 100 + 22 for the block, and is back at 1000.
\<close>

theorem applyBlock_miner_balance_witness:
  "sort_contract env0
   \<and> fst (applyBlock env0 (block_of 0 0 alice [transfer alice bob 100 1 5 0 0]) genesis_state)
       = None
   \<and> spent alice (IsTIP1Fork genesis_state) [transfer alice bob 100 1 5 0 0] = 122
   \<and> map_index (Balances (fst (snd (applyBlock env0
        (block_of 0 0 alice [transfer alice bob 100 1 5 0 0]) genesis_state)))) alice
     = 1000"
proof -
  let ?r = "applyBlock env0 (block_of 0 0 alice [transfer alice bob 100 1 5 0 0]) genesis_state"
  have run: "fst ?r = None
     \<and> spent alice (IsTIP1Fork genesis_state) [transfer alice bob 100 1 5 0 0] = 122
     \<and> map_index (Balances (fst (snd ?r))) alice = 1000"
    by (simp add: model_defs example_defs spent_def)
  then have ab: "?r = (None, fst (snd ?r), snd (snd ?r))"
    by (metis prod.collapse)
  show ?thesis
    using applyBlock_miner_balance [OF sort_contract_env0 ab] run sort_contract_env0
    by blast
qed

text \<open>
  The claim as worded fails: in that block nothing is credited to alice as a recipient,
  reward and fee come to 122, and yet her balance has not grown by 122: it is 1000 before
  and after, because the block's own transfer is charged to her.
\<close>

theorem applyBlock_miner_balance_counterexample:
  "fst (applyBlock env0 (block_of 0 0 alice [transfer alice bob 100 1 5 0 0]) genesis_state)
       = None
   \<and> map_index (Balances genesis_state) alice = 1000
   \<and> received alice [transfer alice bob 100 1 5 0 0] = 0
   \<and> BlockReward env0 + of_nat (length [transfer alice bob 100 1 5 0 0]) * TxFee = 122
   \<and> map_index (Balances (fst (snd (applyBlock env0
        (block_of 0 0 alice [transfer alice bob 100 1 5 0 0]) genesis_state)))) alice
     = 1000"
  by (simp add: model_defs example_defs received_def)

end
